theory Spec2Isabelle
  imports Complex_Main "HOL-Library.AList"
begin

section \<open>Vector space indexing engine: the model\<close>

text \<open>
  A shallow embedding of the class \<open>VectorSearchEngine\<close> of
  \<^verbatim>\<open>vector-space-indexing-engine.py\<close>.

  \<^item> A Python \<open>dict\<close> is an association list in insertion order: \<open>d[k] = v\<close> is
    \<open>AList.update k v d\<close> (an existing key keeps its place, a new key goes to the end),
    a lookup is \<open>map_of d k\<close>, iteration walks the list.
  \<^item> A Python \<open>int\<close> is an \<open>int\<close>. A Python \<open>float\<close> is idealised as a \<open>real\<close>:
    \<open>/\<close>, \<open>*\<close>, \<open>**\<close>, \<open>math.sqrt\<close> and \<open>math.log\<close> are the exact operations, so rounding,
    overflow and underflow of IEEE doubles are outside the model.
  \<^item> A Python \<open>str\<close> is a \<open>string\<close> whose characters are the code points below 256.
  \<^item> Every \<open>raise\<close> is a value \<open>Inl e\<close> of the result type.
\<close>

type_synonym vec = "(string \<times> real) list"
type_synonym concordance = "(string \<times> int) list"

datatype doc_id = IntId int | StrId string

text \<open>The dynamically typed arguments that the code tests with \<open>isinstance\<close>.\<close>

datatype pyobj = PyStr string | PyDict vec | PyInt int | PyNone

datatype error = ValueError string | ZeroDivisionError | KeyError doc_id

type_synonym hit = "real \<times> doc_id \<times> string"

record engine =
  documents :: "(doc_id \<times> string) list"
  index :: "(doc_id \<times> concordance) list"
  document_frequencies :: "(string \<times> int) list"
  total_documents :: int


text \<open>\<open>__init__\<close>\<close>

definition init :: engine where
  "init = \<lparr>documents = [], index = [], document_frequencies = [], total_documents = 0\<rparr>"

subsection \<open>Tokenizer\<close>

text \<open>
  The white space of \<open>str.split()\<close> and \<open>str.strip()\<close> among the code points below 256:
  TAB, LF, VT, FF, CR, FS, GS, RS, US, SPACE, NEL and NBSP.
\<close>

definition is_space :: "char \<Rightarrow> bool" where
  "is_space c \<longleftrightarrow> (of_char c :: nat) \<in> {9, 10, 11, 12, 13, 28, 29, 30, 31, 32, 133, 160}"

text \<open>\<open>string.punctuation\<close>: the 32 ASCII punctuation characters.\<close>

definition is_punct :: "char \<Rightarrow> bool" where
  "is_punct c \<longleftrightarrow>
     (let n = (of_char c :: nat)
      in (33 \<le> n \<and> n \<le> 47) \<or> (58 \<le> n \<and> n \<le> 64) \<or> (91 \<le> n \<and> n \<le> 96) \<or> (123 \<le> n \<and> n \<le> 126))"

text \<open>\<open>str.lower()\<close> on one code point below 256: A-Z, and the Latin-1 capitals except the
  multiplication sign.\<close>

definition lower_char :: "char \<Rightarrow> char" where
  "lower_char c =
     (let n = (of_char c :: nat)
      in if (65 \<le> n \<and> n \<le> 90) \<or> (192 \<le> n \<and> n \<le> 222 \<and> n \<noteq> 215) then char_of (n + 32) else c)"

text \<open>\<open>text.split()\<close>: the maximal runs of characters that are not white space. The first
  argument is the run being read, reversed.\<close>

fun split_ws :: "string \<Rightarrow> string \<Rightarrow> string list" where
  "split_ws cur [] = (if cur = [] then [] else [rev cur])"
| "split_ws cur (c # cs) =
     (if is_space c then (if cur = [] then split_ws [] cs else rev cur # split_ws [] cs)
      else split_ws (c # cur) cs)"

text \<open>\<open>s.strip()\<close>\<close>

definition strip :: "string \<Rightarrow> string" where
  "strip s = rev (dropWhile is_space (rev (dropWhile is_space s)))"

text \<open>The body of \<open>preprocess_text\<close> on a string: lower-case, every punctuation character
  replaced by a space, split at white space. The words of \<open>split()\<close> are non-empty and hold
  no white space, so the \<open>word.strip()\<close> filter and map of the comprehension keep them as
  they are.\<close>

definition tokenize :: "string \<Rightarrow> string list" where
  "tokenize s =
     map strip (filter (\<lambda>word. strip word \<noteq> [])
       (split_ws [] (map (\<lambda>c. if is_punct c then CHR '' '' else c) (map lower_char s))))"

definition preprocess_text :: "pyobj \<Rightarrow> error + string list" where
  "preprocess_text text =
     (case text of
        PyStr s \<Rightarrow> Inr (tokenize s)
      | _ \<Rightarrow> Inl (ValueError ''Input must be a string''))"

text \<open>\<open>Counter(tokens)\<close>: \<open>mapping[elem] = mapping.get(elem, 0) + 1\<close> for each token in turn.\<close>

definition get_default :: "('k \<times> int) list \<Rightarrow> 'k \<Rightarrow> int" where
  "get_default d k = (case map_of d k of None \<Rightarrow> 0 | Some c \<Rightarrow> c)"

definition Counter :: "string list \<Rightarrow> concordance" where
  "Counter tokens = foldl (\<lambda>m w. AList.update w (get_default m w + 1) m) [] tokens"

definition create_concordance :: "pyobj \<Rightarrow> error + concordance" where
  "create_concordance text =
     (case preprocess_text text of
        Inl e \<Rightarrow> Inl e
      | Inr tokens \<Rightarrow> Inr (Counter tokens))"

subsection \<open>TF-IDF and similarity\<close>

text \<open>\<open>math.log\<close> raises \<open>ValueError\<close> outside the positive numbers.\<close>

definition math_log :: "real \<Rightarrow> error + real" where
  "math_log x = (if x \<le> 0 then Inl (ValueError ''math domain error'') else Inr (ln x))"

definition calculate_tf_idf :: "engine \<Rightarrow> int \<Rightarrow> int \<Rightarrow> int \<Rightarrow> error + real" where
  "calculate_tf_idf s term_freq doc_length doc_freq =
     (if doc_freq = 0 then Inr 0
      else
        let tf = (if doc_length > 0 then real_of_int term_freq / real_of_int doc_length else 0)
        in if doc_freq > 0
           then (case math_log (real_of_int (total_documents s) / real_of_int doc_freq) of
                   Inl e \<Rightarrow> Inl e
                 | Inr idf \<Rightarrow> Inr (tf * idf))
           else Inr (tf * 0))"

definition vector_magnitude :: "pyobj \<Rightarrow> error + real" where
  "vector_magnitude vector =
     (case vector of
        PyDict v \<Rightarrow> Inr (sqrt (sum_list (map (\<lambda>value. value ^ 2) (map snd v))))
      | _ \<Rightarrow> Inl (ValueError ''Vector must be a dictionary''))"

text \<open>The dot product loop: \<open>for term in vec1: if term in vec2: dot_product += vec1[term] * vec2[term]\<close>.
  The loop walks the items of \<open>vec1\<close>, so \<open>vec1[term]\<close> is the value stored beside \<open>term\<close>.\<close>

definition dot_product :: "vec \<Rightarrow> vec \<Rightarrow> real" where
  "dot_product v1 v2 =
     foldl (\<lambda>acc (term, x). case map_of v2 term of None \<Rightarrow> acc | Some y \<Rightarrow> acc + x * y) 0 v1"

definition cosine_similarity :: "pyobj \<Rightarrow> pyobj \<Rightarrow> error + real" where
  "cosine_similarity vec1 vec2 =
     (case (vec1, vec2) of
        (PyDict v1, PyDict v2) \<Rightarrow>
          (case vector_magnitude vec1 of
             Inl e \<Rightarrow> Inl e
           | Inr mag1 \<Rightarrow>
               (case vector_magnitude vec2 of
                  Inl e \<Rightarrow> Inl e
                | Inr mag2 \<Rightarrow>
                    if mag1 = 0 \<or> mag2 = 0 then Inr 0
                    else Inr (dot_product v1 v2 / (mag1 * mag2))))
      | _ \<Rightarrow> Inl (ValueError ''Both arguments must be dictionaries''))"

subsection \<open>Index\<close>

text \<open>\<open>for word in concordance: self.document_frequencies[word] += 1\<close> on a \<open>defaultdict(int)\<close>.\<close>

definition bump_frequencies :: "(string \<times> int) list \<Rightarrow> concordance \<Rightarrow> (string \<times> int) list" where
  "bump_frequencies df concordance =
     foldl (\<lambda>d word. AList.update word (get_default d word + 1) d) df (map fst concordance)"

text \<open>\<open>add_document\<close> returns the outcome of the call together with the state it leaves.\<close>

definition add_document :: "doc_id \<Rightarrow> pyobj \<Rightarrow> engine \<Rightarrow> (error + unit) \<times> engine" where
  "add_document doc_id text s =
     (case text of
        PyStr t \<Rightarrow>
          (let s1 = s\<lparr>documents := AList.update doc_id t (documents s)\<rparr>
           in case create_concordance text of
                Inl e \<Rightarrow> (Inl e, s1)
              | Inr concordance \<Rightarrow>
                  (let s2 = s1\<lparr>document_frequencies :=
                                 bump_frequencies (document_frequencies s1) concordance\<rparr>;
                       s3 = s2\<lparr>index := AList.update doc_id concordance (index s2)\<rparr>
                   in (Inr (), s3\<lparr>total_documents := int (length (documents s3))\<rparr>)))
      | _ \<Rightarrow> (Inl (ValueError ''Document text must be a string''), s))"

text \<open>A sequence of \<open>add_document\<close> calls on a fresh engine; a call that raises leaves the
  state it reached, and the caller goes on.\<close>

definition run :: "(doc_id \<times> pyobj) list \<Rightarrow> engine" where
  "run calls = foldl (\<lambda>s (doc_id, text). snd (add_document doc_id text s)) init calls"

fun tfidf_loop :: "engine \<Rightarrow> int \<Rightarrow> concordance \<Rightarrow> vec \<Rightarrow> error + vec" where
  "tfidf_loop s doc_length [] tfidf_vector = Inr tfidf_vector"
| "tfidf_loop s doc_length ((term, freq) # rest) tfidf_vector =
     (case calculate_tf_idf s freq doc_length (get_default (document_frequencies s) term) of
        Inl e \<Rightarrow> Inl e
      | Inr w \<Rightarrow> tfidf_loop s doc_length rest (AList.update term w tfidf_vector))"

definition create_tfidf_vector :: "engine \<Rightarrow> concordance \<Rightarrow> error + vec" where
  "create_tfidf_vector s concordance =
     tfidf_loop s (sum_list (map snd concordance)) concordance []"

subsection \<open>Search\<close>

text \<open>\<open>for term, freq in query_concordance.items(): if term in self.document_frequencies:
  query_vector[term] = freq / total_query_terms\<close>; the division raises on a zero divisor.\<close>

fun query_loop :: "engine \<Rightarrow> int \<Rightarrow> concordance \<Rightarrow> vec \<Rightarrow> error + vec" where
  "query_loop s total_query_terms [] query_vector = Inr query_vector"
| "query_loop s total_query_terms ((term, freq) # rest) query_vector =
     (if term \<in> set (map fst (document_frequencies s))
      then (if total_query_terms = 0 then Inl ZeroDivisionError
            else query_loop s total_query_terms rest
                   (AList.update term (real_of_int freq / real_of_int total_query_terms) query_vector))
      else query_loop s total_query_terms rest query_vector)"

definition preview_of :: "string \<Rightarrow> string" where
  "preview_of text = take 100 text @ (if length text > 100 then ''...'' else [])"

fun score_loop :: "engine \<Rightarrow> vec \<Rightarrow> (doc_id \<times> concordance) list \<Rightarrow> hit list \<Rightarrow> error + hit list" where
  "score_loop s query_vector [] results = Inr results"
| "score_loop s query_vector ((doc_id, concordance) # rest) results =
     (case create_tfidf_vector s concordance of
        Inl e \<Rightarrow> Inl e
      | Inr doc_vector \<Rightarrow>
          (case cosine_similarity (PyDict query_vector) (PyDict doc_vector) of
             Inl e \<Rightarrow> Inl e
           | Inr similarity \<Rightarrow>
               if similarity > 0
               then (case map_of (documents s) doc_id of
                       None \<Rightarrow> Inl (KeyError doc_id)
                     | Some text \<Rightarrow>
                         score_loop s query_vector rest (results @ [(similarity, doc_id, preview_of text)]))
               else score_loop s query_vector rest results))"

text \<open>\<open>results.sort(reverse=True, key=lambda x: x[0])\<close>: a stable sort, largest score first;
  hits of equal score keep their order.\<close>

definition sort_results :: "hit list \<Rightarrow> hit list" where
  "sort_results results = sort_key (\<lambda>x. - fst x) results"

text \<open>\<open>xs[:n]\<close>: a negative \<open>n\<close> counts from the end.\<close>

definition slice_to :: "'a list \<Rightarrow> int \<Rightarrow> 'a list" where
  "slice_to xs n = (if n \<ge> 0 then take (nat n) xs else take (nat (int (length xs) + n)) xs)"

definition search :: "pyobj \<Rightarrow> int \<Rightarrow> engine \<Rightarrow> error + hit list" where
  "search query max_results s =
     (case query of
        PyStr q \<Rightarrow>
          if strip q = [] then Inl (ValueError ''Query must be a non-empty string'')
          else if documents s = [] then Inr []
          else
            (case create_concordance query of
               Inl e \<Rightarrow> Inl e
             | Inr query_concordance \<Rightarrow>
                 (case query_loop s (sum_list (map snd query_concordance)) query_concordance [] of
                    Inl e \<Rightarrow> Inl e
                  | Inr query_vector \<Rightarrow>
                      (case score_loop s query_vector (index s) [] of
                         Inl e \<Rightarrow> Inl e
                       | Inr results \<Rightarrow> Inr (slice_to (sort_results results) max_results))))
      | _ \<Rightarrow> Inl (ValueError ''Query must be a non-empty string''))"

subsection \<open>Statistics\<close>





subsection \<open>The invariant of the store\<close>

text \<open>The total is the size of the store, and the index has the keys of the store, in the
  same order.\<close>

definition store_inv :: "engine \<Rightarrow> bool" where
  "store_inv s \<longleftrightarrow>
     total_documents s = int (length (documents s)) \<and> map fst (index s) = map fst (documents s)"

subsection \<open>Example states\<close>

text \<open>Adding a list of documents, each a string, in order.\<close>

definition as_calls :: "(doc_id \<times> string) list \<Rightarrow> (doc_id \<times> pyobj) list" where
  "as_calls docs = map (\<lambda>(doc_id, text). (doc_id, PyStr text)) docs"

text \<open>The two documents of the specification's scenario.\<close>

definition two_docs :: "(doc_id \<times> string) list" where
  "two_docs = [(StrId ''a'', ''cat dog cat''), (StrId ''b'', ''dog bird'')]"

text \<open>The same document added twice under one id.\<close>

definition overwritten :: engine where
  "overwritten = run [(IntId 1, PyStr ''cat''), (IntId 1, PyStr ''cat'')]"

text \<open>Three documents, two of them with the same text: two hits of equal score.\<close>

definition three_docs :: "(doc_id \<times> string) list" where
  "three_docs = [(IntId 1, ''a''), (IntId 2, ''a''), (IntId 3, ''b'')]"


section \<open>Similarity and weights\<close>

text \<open>The weight of one term, and the cosine of two sparse vectors.\<close>

text \<open>
  Claim C6. The per-term weight is 0 when \<open>doc_freq = 0\<close>. For \<open>doc_freq \<ge> 1\<close> and at
  least one document it is \<open>tf * ln (total_documents / doc_freq)\<close>, where \<open>tf\<close> is
  \<open>term_freq / doc_length\<close> for a positive \<open>doc_length\<close> and 0 for \<open>doc_length = 0\<close>; a
  term found in every document (\<open>doc_freq = total_documents\<close>) weighs 0.
\<close>

theorem calculate_tf_idf_formula:
  "(doc_freq = 0 \<longrightarrow> calculate_tf_idf s term_freq doc_length doc_freq = Inr 0) \<and>
   (doc_freq \<ge> 1 \<and> total_documents s \<ge> 1 \<and> doc_length > 0 \<longrightarrow>
      calculate_tf_idf s term_freq doc_length doc_freq =
        Inr ((real_of_int term_freq / real_of_int doc_length) *
             ln (real_of_int (total_documents s) / real_of_int doc_freq))) \<and>
   (doc_freq \<ge> 1 \<and> total_documents s \<ge> 1 \<and> doc_length = 0 \<longrightarrow>
      calculate_tf_idf s term_freq doc_length doc_freq =
        Inr (0 * ln (real_of_int (total_documents s) / real_of_int doc_freq))) \<and>
   (doc_freq \<ge> 1 \<and> doc_freq = total_documents s \<longrightarrow>
      calculate_tf_idf s term_freq doc_length doc_freq = Inr 0)"
proof (cases "doc_freq \<ge> 1 \<and> total_documents s \<ge> 1")
  case True
  then have "0 < real_of_int (total_documents s) / real_of_int doc_freq" by simp
  then have "\<not> real_of_int (total_documents s) / real_of_int doc_freq \<le> 0"
    by (simp only: not_le)
  with True show ?thesis
    by (simp add: calculate_tf_idf_def math_log_def Let_def)
next
  case False
  then show ?thesis
    by (auto simp: calculate_tf_idf_def math_log_def Let_def)
qed

theorem calculate_tf_idf_formula_witness:
  "calculate_tf_idf (init\<lparr>total_documents := 2\<rparr>) 1 0 0 = Inr 0 \<and>
   calculate_tf_idf (init\<lparr>total_documents := 2\<rparr>) 1 2 1 = Inr ((1 / 2) * ln 2) \<and>
   calculate_tf_idf (init\<lparr>total_documents := 2\<rparr>) 1 0 1 = Inr 0 \<and>
   calculate_tf_idf (init\<lparr>total_documents := 2\<rparr>) 1 2 2 = Inr 0"
  using calculate_tf_idf_formula [of 0 "init\<lparr>total_documents := 2\<rparr>" 1 0]
    calculate_tf_idf_formula [of 1 "init\<lparr>total_documents := 2\<rparr>" 1 2]
    calculate_tf_idf_formula [of 1 "init\<lparr>total_documents := 2\<rparr>" 1 0]
    calculate_tf_idf_formula [of 2 "init\<lparr>total_documents := 2\<rparr>" 1 2]
  by (simp add: init_def)

lemma dot_loop_self:
  fixes v xs :: vec
  assumes "distinct (map fst v)" "set xs \<subseteq> set v"
  shows "foldl (\<lambda>acc (term, x). case map_of v term of None \<Rightarrow> acc | Some y \<Rightarrow> acc + x * y) a xs
         = a + sum_list (map (\<lambda>value. value ^ 2) (map snd xs))"
  using assms(2)
proof (induction xs arbitrary: a)
  case Nil
  then show ?case by simp
next
  case (Cons p xs)
  obtain t x where p: "p = (t, x)" by (cases p)
  with Cons.prems have "(t, x) \<in> set v" by simp
  with assms(1) have "map_of v t = Some x" by simp
  with p have "foldl (\<lambda>acc (term, x). case map_of v term of None \<Rightarrow> acc | Some y \<Rightarrow> acc + x * y) a (p # xs)
      = foldl (\<lambda>acc (term, x). case map_of v term of None \<Rightarrow> acc | Some y \<Rightarrow> acc + x * y) (a + x * x) xs"
    by simp
  also have "\<dots> = (a + x * x) + sum_list (map (\<lambda>value. value ^ 2) (map snd xs))"
    using Cons.prems by (intro Cons.IH) simp
  also have "\<dots> = a + sum_list (map (\<lambda>value. value ^ 2) (map snd (p # xs)))"
    by (simp add: p power2_eq_square add.assoc)
  finally show ?case .
qed

lemma dot_product_self:
  "distinct (map fst v) \<Longrightarrow> dot_product v v = sum_list (map (\<lambda>value. value ^ 2) (map snd v))"
  using dot_loop_self [of v v 0] by (simp add: dot_product_def)

lemma sum_squares_nonneg: "0 \<le> sum_list (map (\<lambda>value. value ^ 2) (xs :: real list))"
  by (induction xs) simp_all

lemma sum_squares_zero: "\<forall>x\<in>set xs. x = (0::real) \<Longrightarrow> sum_list (map (\<lambda>value. value ^ 2) xs) = 0"
  by (induction xs) simp_all

text \<open>
  Claim C9. The cosine similarity of a vector of nonzero magnitude with itself is 1; the
  similarity of any vector with an all-zero vector, in either argument position, is 0, as
  it is whenever one of the two magnitudes is 0. The keys of a \<open>dict\<close> are distinct.
\<close>

theorem cosine_self_and_zero:
  "(distinct (map fst v) \<and> vector_magnitude (PyDict v) \<noteq> Inr 0 \<longrightarrow>
      cosine_similarity (PyDict v) (PyDict v) = Inr 1) \<and>
   ((\<forall>x\<in>set (map snd z). x = 0) \<longrightarrow>
      cosine_similarity (PyDict v) (PyDict z) = Inr 0 \<and>
      cosine_similarity (PyDict z) (PyDict v) = Inr 0) \<and>
   (vector_magnitude (PyDict a) = Inr 0 \<or> vector_magnitude (PyDict b) = Inr 0 \<longrightarrow>
      cosine_similarity (PyDict a) (PyDict b) = Inr 0)"
proof -
  have self: "cosine_similarity (PyDict v) (PyDict v) = Inr 1"
    if h: "distinct (map fst v) \<and> vector_magnitude (PyDict v) \<noteq> Inr 0"
  proof -
    let ?n = "sum_list (map (\<lambda>value. value ^ 2) (map snd v))"
    from h have nz: "sqrt ?n \<noteq> 0" by (simp add: vector_magnitude_def)
    have "0 \<le> ?n" by (rule sum_squares_nonneg)
    then have sq: "sqrt ?n * sqrt ?n = ?n" by simp
    from h have "dot_product v v = ?n" by (simp add: dot_product_self)
    with nz sq show "cosine_similarity (PyDict v) (PyDict v) = Inr 1"
      by (simp add: cosine_similarity_def vector_magnitude_def)
  qed
  have zero: "cosine_similarity (PyDict v) (PyDict z) = Inr 0 \<and>
      cosine_similarity (PyDict z) (PyDict v) = Inr 0"
    if "\<forall>x\<in>set (map snd z). x = 0"
  proof -
    from that have "sum_list (map (\<lambda>value. value ^ 2) (map snd z)) = 0"
      by (rule sum_squares_zero)
    then show ?thesis
      by (simp add: cosine_similarity_def vector_magnitude_def)
  qed
  have mag: "cosine_similarity (PyDict a) (PyDict b) = Inr 0"
    if "vector_magnitude (PyDict a) = Inr 0 \<or> vector_magnitude (PyDict b) = Inr 0"
    using that by (auto simp: cosine_similarity_def vector_magnitude_def)
  from self zero mag show ?thesis by blast
qed

theorem cosine_self_and_zero_witness:
  "cosine_similarity (PyDict [(''a'', 3), (''b'', 4)]) (PyDict [(''a'', 3), (''b'', 4)]) = Inr 1 \<and>
   cosine_similarity (PyDict [(''a'', 3), (''b'', 4)]) (PyDict [(''a'', 0), (''c'', 0)]) = Inr 0 \<and>
   cosine_similarity (PyDict [(''a'', 0), (''c'', 0)]) (PyDict [(''a'', 3), (''b'', 4)]) = Inr 0 \<and>
   cosine_similarity (PyDict []) (PyDict [(''a'', 3), (''b'', 4)]) = Inr 0"
  using cosine_self_and_zero [of "[(''a'', 3), (''b'', 4)]" "[(''a'', 0), (''c'', 0)]" "[]" "[(''a'', 3), (''b'', 4)]"]
  by (simp add: vector_magnitude_def)

section \<open>Adding a document\<close>

text \<open>Counting tokens and bumping document frequencies are the same fold: each step adds
  1 to the count of one key.\<close>

lemma get_default_update:
  "get_default (AList.update w c d) k = (if k = w then c else get_default d k)"
  by (simp add: get_default_def update_conv')

lemma incr_fold_get:
  "get_default (foldl (\<lambda>d w. AList.update w (get_default d w + 1) d) d ws) k
   = get_default d k + int (count_list ws k)"
  by (induction ws arbitrary: d) (simp_all add: get_default_update)

lemma incr_fold_keys:
  "fst ` set (foldl (\<lambda>d w. AList.update w (get_default d w + 1) d) d ws) = fst ` set d \<union> set ws"
  by (induction ws arbitrary: d) (auto simp: dom_update)

lemma incr_fold_distinct:
  "distinct (map fst d) \<Longrightarrow>
   distinct (map fst (foldl (\<lambda>d w. AList.update w (get_default d w + 1) d) d ws))"
  by (induction ws arbitrary: d) (simp_all add: distinct_update)

lemma Counter_keys: "fst ` set (Counter tokens) = set tokens"
  by (simp add: Counter_def incr_fold_keys)

lemma Counter_distinct: "distinct (map fst (Counter tokens))"
  by (simp add: Counter_def incr_fold_distinct)

lemma count_list_distinct: "distinct ws \<Longrightarrow> count_list ws k = (if k \<in> set ws then 1 else 0)"
  by (induction ws) auto

lemma bump_frequencies_get:
  "distinct (map fst c) \<Longrightarrow>
   get_default (bump_frequencies df c) w = get_default df w + (if w \<in> fst ` set c then 1 else 0)"
  by (simp add: bump_frequencies_def incr_fold_get count_list_distinct)

lemma create_concordance_str [simp]: "create_concordance (PyStr t) = Inr (Counter (tokenize t))"
  by (simp add: create_concordance_def preprocess_text_def)

lemma add_document_str:
  "add_document doc_id (PyStr t) s =
     (Inr (), \<lparr>documents = AList.update doc_id t (documents s),
               index = AList.update doc_id (Counter (tokenize t)) (index s),
               document_frequencies = bump_frequencies (document_frequencies s) (Counter (tokenize t)),
               total_documents = int (length (AList.update doc_id t (documents s)))\<rparr>)"
  by (simp add: add_document_def Let_def)

text \<open>
  Claim C7. A call \<open>add_document(id, text)\<close> with a string stores the text and the
  term-frequency map under \<open>id\<close>, adds 1 to the document frequency of exactly the terms of
  the text, and sets the total to the size of the store; with anything else it raises the
  error (\<open>ValueError\<close> in the code) and leaves the engine as it was.
\<close>

theorem add_document_atomic:
  "(\<forall>t. text = PyStr t \<longrightarrow>
      fst (add_document doc_id text s) = Inr () \<and>
      documents (snd (add_document doc_id text s)) = AList.update doc_id t (documents s) \<and>
      index (snd (add_document doc_id text s)) = AList.update doc_id (Counter (tokenize t)) (index s) \<and>
      (\<forall>w. get_default (document_frequencies (snd (add_document doc_id text s))) w =
           get_default (document_frequencies s) w + (if w \<in> set (tokenize t) then 1 else 0)) \<and>
      total_documents (snd (add_document doc_id text s)) =
        int (length (documents (snd (add_document doc_id text s))))) \<and>
   ((\<forall>t. text \<noteq> PyStr t) \<longrightarrow>
      add_document doc_id text s = (Inl (ValueError ''Document text must be a string''), s))"
proof (cases "text")
  case (PyStr t)
  then show ?thesis
    by (simp add: add_document_str bump_frequencies_get Counter_distinct Counter_keys)
qed (simp_all add: add_document_def)

theorem add_document_atomic_witness:
  "fst (add_document (IntId 1) (PyStr ''cat dog cat'') init) = Inr () \<and>
   documents (snd (add_document (IntId 1) (PyStr ''cat dog cat'') init)) = [(IntId 1, ''cat dog cat'')] \<and>
   index (snd (add_document (IntId 1) (PyStr ''cat dog cat'') init)) = [(IntId 1, [(''cat'', 2), (''dog'', 1)])] \<and>
   get_default (document_frequencies (snd (add_document (IntId 1) (PyStr ''cat dog cat'') init))) ''cat'' = 1 \<and>
   total_documents (snd (add_document (IntId 1) (PyStr ''cat dog cat'') init)) = 1 \<and>
   add_document (IntId 1) (PyInt 5) init = (Inl (ValueError ''Document text must be a string''), init)"
proof -
  have tok: "tokenize ''cat dog cat'' = [''cat'', ''dog'', ''cat'']" by code_simp
  have cnt: "Counter [''cat'', ''dog'', ''cat''] = [(''cat'', 2), (''dog'', 1)]" by code_simp
  show ?thesis
    using add_document_atomic [of "PyStr ''cat dog cat''" "IntId 1" init]
      add_document_atomic [of "PyInt 5" "IntId 1" init]
    by (simp add: tok cnt init_def get_default_def)
qed

text \<open>
  Claim C3, as amended. On an engine with no documents, \<open>search\<close> returns the empty list
  for every query that is not empty after trimming, whatever \<open>max_results\<close> is. A query
  that is empty after trimming, or is not a string, raises the error of an invalid query
  on every engine, one with no documents included.
\<close>

theorem search_empty_index:
  "(documents s = [] \<and> strip q \<noteq> [] \<longrightarrow> search (PyStr q) max_results s = Inr []) \<and>
   (strip q = [] \<longrightarrow>
      search (PyStr q) max_results s = Inl (ValueError ''Query must be a non-empty string'')) \<and>
   ((\<forall>q. query \<noteq> PyStr q) \<longrightarrow>
      search query max_results s = Inl (ValueError ''Query must be a non-empty string''))"
  by (cases query) (simp_all add: search_def)

theorem search_empty_index_witness:
  "documents init = [] \<and> strip ''cat'' \<noteq> [] \<and> search (PyStr ''cat'') 10 init = Inr [] \<and>
   strip [CHR 0x20, CHR 0x09] = [] \<and>
   search (PyStr [CHR 0x20, CHR 0x09]) 10 init = Inl (ValueError ''Query must be a non-empty string'') \<and>
   search PyNone 10 init = Inl (ValueError ''Query must be a non-empty string'')"
proof -
  have d: "documents init = []" by (simp add: init_def)
  have q: "strip ''cat'' \<noteq> []" by code_simp
  have b: "strip [CHR 0x20, CHR 0x09] = []" by code_simp
  from d q b search_empty_index [of init "''cat''" 10 PyNone]
    search_empty_index [of init "[CHR 0x20, CHR 0x09]" 10 PyNone]
  show ?thesis by simp
qed

text \<open>
  Claim C3 as stated fails: the test of the query comes first, so an empty or blank query
  raises on an engine with no documents too.
\<close>

theorem search_empty_index_blank_query:
  "documents init = [] \<and>
   search (PyStr []) 10 init = Inl (ValueError ''Query must be a non-empty string'') \<and>
   search (PyStr ''  '') 10 init = Inl (ValueError ''Query must be a non-empty string'')"
proof -
  have "strip [] = []" "strip ''  '' = []" by code_simp+
  then show ?thesis by (simp add: search_def init_def)
qed

section \<open>Document frequencies and statistics\<close>

text \<open>A run of calls is unfolded from its last call.\<close>

lemma run_snoc: "run (calls @ [(doc_id, text)]) = snd (add_document doc_id text (run calls))"
  by (simp add: run_def)

lemma run_Nil: "run [] = init"
  by (simp add: run_def)

lemma as_calls_snoc: "as_calls (docs @ [(doc_id, t)]) = as_calls docs @ [(doc_id, PyStr t)]"
  by (simp add: as_calls_def)

lemma update_new_key: "k \<notin> fst ` set al \<Longrightarrow> AList.update k v al = al @ [(k, v)]"
  by (induction al) auto

lemma run_frequencies:
  "get_default (document_frequencies (run (as_calls docs))) t
   = int (length (filter (\<lambda>(doc_id, text). t \<in> set (tokenize text)) docs))"
proof (induction docs rule: rev_induct)
  case Nil
  then show ?case by (simp add: as_calls_def run_Nil init_def get_default_def)
next
  case (snoc p docs)
  obtain i x where p: "p = (i, x)" by (cases p)
  show ?case
    unfolding p as_calls_snoc run_snoc
    using snoc.IH
    by (simp add: add_document_str bump_frequencies_get Counter_distinct Counter_keys)
qed

lemma run_store_distinct:
  "distinct (map fst docs) \<Longrightarrow>
   documents (run (as_calls docs)) = docs \<and>
   index (run (as_calls docs)) = map (\<lambda>(doc_id, text). (doc_id, Counter (tokenize text))) docs"
proof (induction docs rule: rev_induct)
  case Nil
  then show ?case by (simp add: as_calls_def run_Nil init_def)
next
  case (snoc p docs)
  obtain i x where p: "p = (i, x)" by (cases p)
  from snoc.prems p have new: "i \<notin> fst ` set docs" and d: "distinct (map fst docs)" by auto
  from snoc.IH [OF d] have docs: "documents (run (as_calls docs)) = docs"
    and idx: "index (run (as_calls docs)) = map (\<lambda>(doc_id, text). (doc_id, Counter (tokenize text))) docs"
    by simp_all
  from new have new': "i \<notin> fst ` set (map (\<lambda>(doc_id, text). (doc_id, Counter (tokenize text))) docs)"
    by (force simp: image_iff)
  show ?case
    unfolding p as_calls_snoc run_snoc
    by (simp add: add_document_str docs idx update_new_key [OF new] update_new_key [OF new'])
qed

text \<open>
  Claim C4. After adding documents with pairwise distinct ids to a fresh engine, the store
  holds exactly those documents, and for every term \<open>t\<close> of one of them the document
  frequency of \<open>t\<close> lies between 1 and the number of documents and is the number of
  stored documents whose tokenized text contains \<open>t\<close>, which is also the number of
  term-frequency maps of the index that contain \<open>t\<close>.
\<close>

theorem document_frequency_distinct_ids:
  assumes "distinct (map fst docs)" and "(i, x) \<in> set docs" and "t \<in> set (tokenize x)"
  shows "documents (run (as_calls docs)) = docs \<and>
         1 \<le> get_default (document_frequencies (run (as_calls docs))) t \<and>
         get_default (document_frequencies (run (as_calls docs))) t \<le> int (length docs) \<and>
         get_default (document_frequencies (run (as_calls docs))) t
           = int (length (filter (\<lambda>(doc_id, text). t \<in> set (tokenize text))
                            (documents (run (as_calls docs))))) \<and>
         get_default (document_frequencies (run (as_calls docs))) t
           = int (length (filter (\<lambda>(doc_id, concordance). t \<in> fst ` set concordance)
                            (index (run (as_calls docs)))))"
proof -
  let ?P = "\<lambda>(doc_id, text). t \<in> set (tokenize text)"
  from assms(1) have docs: "documents (run (as_calls docs)) = docs"
    and idx: "index (run (as_calls docs)) = map (\<lambda>(doc_id, text). (doc_id, Counter (tokenize text))) docs"
    using run_store_distinct by simp_all
  have n: "get_default (document_frequencies (run (as_calls docs))) t = int (length (filter ?P docs))"
    by (rule run_frequencies)
  from assms(2,3) have "(i, x) \<in> set (filter ?P docs)" by simp
  then have "filter ?P docs \<noteq> []" by (metis empty_iff list.set(1))
  then have lo: "1 \<le> int (length (filter ?P docs))" by (cases "filter ?P docs") simp_all
  have hi: "int (length (filter ?P docs)) \<le> int (length docs)" by simp
  have "filter (\<lambda>(doc_id, concordance). t \<in> fst ` set concordance)
          (map (\<lambda>(doc_id, text). (doc_id, Counter (tokenize text))) docs)
        = map (\<lambda>(doc_id, text). (doc_id, Counter (tokenize text))) (filter ?P docs)"
    by (simp add: filter_map comp_def case_prod_unfold Counter_keys)
  then have ix: "length (filter (\<lambda>(doc_id, concordance). t \<in> fst ` set concordance)
          (map (\<lambda>(doc_id, text). (doc_id, Counter (tokenize text))) docs)) = length (filter ?P docs)"
    by simp
  from docs idx n lo hi ix show ?thesis by simp
qed

lemma two_docs_tokens:
  "tokenize ''cat dog cat'' = [''cat'', ''dog'', ''cat'']" "tokenize ''dog bird'' = [''dog'', ''bird'']"
  by code_simp+

theorem document_frequency_distinct_ids_witness:
  "distinct (map fst two_docs) \<and> (StrId ''b'', ''dog bird'') \<in> set two_docs \<and>
   ''dog'' \<in> set (tokenize ''dog bird'') \<and>
   documents (run (as_calls two_docs)) = two_docs \<and>
   get_default (document_frequencies (run (as_calls two_docs))) ''dog'' = 2 \<and>
   int (length (filter (\<lambda>(doc_id, text). ''dog'' \<in> set (tokenize text))
                  (documents (run (as_calls two_docs))))) = 2"
proof -
  have d: "distinct (map fst two_docs)" by (simp add: two_docs_def)
  have m: "(StrId ''b'', ''dog bird'') \<in> set two_docs" by (simp add: two_docs_def)
  have t: "''dog'' \<in> set (tokenize ''dog bird'')" by (simp add: two_docs_tokens)
  have c: "int (length (filter (\<lambda>(doc_id, text). ''dog'' \<in> set (tokenize text)) two_docs)) = 2"
    by (simp add: two_docs_def two_docs_tokens)
  from document_frequency_distinct_ids [OF d m t] c d m t show ?thesis by simp
qed









lemma two_docs_state:
  "run (as_calls two_docs) =
     \<lparr>documents = [(StrId ''a'', ''cat dog cat''), (StrId ''b'', ''dog bird'')],
      index = [(StrId ''a'', [(''cat'', 2), (''dog'', 1)]), (StrId ''b'', [(''dog'', 1), (''bird'', 1)])],
      document_frequencies = [(''cat'', 1), (''dog'', 2), (''bird'', 1)],
      total_documents = 2\<rparr>"
  unfolding two_docs_def as_calls_def by code_simp





section \<open>Search never divides by zero\<close>

text \<open>Every reachable state satisfies the invariant of the store.\<close>

lemma add_document_store_inv: "store_inv s \<Longrightarrow> store_inv (snd (add_document doc_id x s))"
  by (cases x) (simp_all add: add_document_str add_document_def store_inv_def update_keys)

lemma run_store_inv: "store_inv (run calls)"
proof (induction calls rule: rev_induct)
  case Nil
  then show ?case by (simp add: run_Nil init_def store_inv_def)
next
  case (snoc c calls)
  then show ?case by (cases c) (simp add: run_snoc add_document_store_inv)
qed

lemma incr_update_sum:
  "sum_list (map snd (AList.update w (get_default d w + 1) d)) = sum_list (map snd d) + 1"
  by (induction d) (auto simp: get_default_def)

lemma incr_fold_sum:
  "sum_list (map snd (foldl (\<lambda>d w. AList.update w (get_default d w + 1) d) d ws))
   = sum_list (map snd d) + int (length ws)"
  by (induction ws arbitrary: d) (simp_all add: incr_update_sum)

lemma Counter_sum: "sum_list (map snd (Counter tokens)) = int (length tokens)"
  by (simp add: Counter_def incr_fold_sum)

lemma Counter_Nil: "Counter [] = []"
  by (simp add: Counter_def)

lemma query_loop_returns:
  "(c \<noteq> [] \<longrightarrow> n \<noteq> 0) \<Longrightarrow> \<exists>v. query_loop s n c acc = Inr v"
  by (induction s n c acc rule: query_loop.induct) auto

lemma query_loop_Counter: "\<exists>v. query_loop s (sum_list (map snd (Counter tokens))) (Counter tokens) [] = Inr v"
proof (rule query_loop_returns, rule impI)
  assume "Counter tokens \<noteq> []"
  then have "tokens \<noteq> []" by (auto simp: Counter_Nil)
  then show "sum_list (map snd (Counter tokens)) \<noteq> 0" by (simp add: Counter_sum)
qed

lemma calculate_tf_idf_returns:
  "0 < total_documents s \<Longrightarrow> \<exists>w. calculate_tf_idf s term_freq doc_length doc_freq = Inr w"
proof (cases "0 < doc_freq")
  case True
  assume "0 < total_documents s"
  with True have "0 < real_of_int (total_documents s) / real_of_int doc_freq" by simp
  then have "\<not> real_of_int (total_documents s) / real_of_int doc_freq \<le> 0"
    by (simp only: not_le)
  then show ?thesis
    by (simp add: calculate_tf_idf_def math_log_def Let_def)
next
  case False
  then show ?thesis
    by (simp add: calculate_tf_idf_def Let_def)
qed

lemma calculate_tf_idf_error:
  "calculate_tf_idf s term_freq doc_length doc_freq = Inl e \<Longrightarrow> e = ValueError ''math domain error''"
  by (auto simp: calculate_tf_idf_def math_log_def Let_def split: if_splits)

lemma tfidf_loop_returns:
  "0 < total_documents s \<Longrightarrow> \<exists>v. tfidf_loop s doc_length c acc = Inr v"
proof (induction c arbitrary: acc)
  case Nil
  then show ?case by simp
next
  case (Cons p c)
  obtain t f where p: "p = (t, f)" by (cases p)
  from Cons.prems obtain w where
    "calculate_tf_idf s f doc_length (get_default (document_frequencies s) t) = Inr w"
    using calculate_tf_idf_returns by blast
  with Cons p show ?case by simp
qed

lemma tfidf_loop_error:
  "tfidf_loop s doc_length c acc = Inl e \<Longrightarrow> e = ValueError ''math domain error''"
  by (induction s doc_length c acc rule: tfidf_loop.induct)
     (auto split: sum.splits dest: calculate_tf_idf_error)

lemma cosine_similarity_dicts:
  "\<exists>x. cosine_similarity (PyDict a) (PyDict b) = Inr x"
  by (simp add: cosine_similarity_def vector_magnitude_def)

lemma cosine_similarity_empty: "cosine_similarity (PyDict []) (PyDict b) = Inr 0"
  by (simp add: cosine_similarity_def vector_magnitude_def)

lemma score_loop_empty_query:
  "0 < total_documents s \<Longrightarrow> score_loop s [] idx results = Inr results"
proof (induction idx)
  case Nil
  then show ?case by simp
next
  case (Cons p idx)
  obtain i c where p: "p = (i, c)" by (cases p)
  from Cons.prems obtain v where "create_tfidf_vector s c = Inr v"
    unfolding create_tfidf_vector_def using tfidf_loop_returns by blast
  with Cons p show ?case by (simp add: cosine_similarity_empty)
qed

lemma score_loop_error:
  "score_loop s qv idx results = Inl e \<Longrightarrow> e \<noteq> ZeroDivisionError"
proof (induction s qv idx results rule: score_loop.induct)
  case (1 s qv results)
  then show ?case by simp
next
  case (2 s qv doc_id concordance rest results)
  show ?case
  proof (cases "create_tfidf_vector s concordance")
    case (Inl e')
    with 2 show ?thesis
      by (auto simp: create_tfidf_vector_def dest: tfidf_loop_error)
  next
    case (Inr dv)
    obtain x where x: "cosine_similarity (PyDict qv) (PyDict dv) = Inr x"
      using cosine_similarity_dicts by blast
    with 2 Inr show ?thesis
      by (auto split: if_splits option.splits)
  qed
qed

lemma search_no_zero_division: "search query max_results s \<noteq> Inl ZeroDivisionError"
proof (cases query)
  case (PyStr q)
  obtain v where v: "query_loop s (sum_list (map snd (Counter (tokenize q)))) (Counter (tokenize q)) [] = Inr v"
    using query_loop_Counter by blast
  show ?thesis
    using score_loop_error [of s v "index s" "[]"]
    by (auto simp: search_def PyStr v split: sum.splits)
qed (simp_all add: search_def)

text \<open>
  Claim C10. On an engine with at least one indexed document, a query that is not blank
  but has no token (punctuation only, say) makes \<open>search\<close> return the empty list. The
  division by the number of query terms never has a zero divisor: no call of \<open>search\<close>, on
  any state and any query, raises \<open>ZeroDivisionError\<close>.
\<close>

theorem token_free_query_safe:
  "(documents (run calls) \<noteq> [] \<and> strip q \<noteq> [] \<and> tokenize q = [] \<longrightarrow>
      search (PyStr q) max_results (run calls) = Inr []) \<and>
   search query max_results s \<noteq> Inl ZeroDivisionError"
proof -
  have "search (PyStr q) max_results (run calls) = Inr []"
    if h: "documents (run calls) \<noteq> [] \<and> strip q \<noteq> [] \<and> tokenize q = []"
  proof -
    have "store_inv (run calls)" by (rule run_store_inv)
    with h have "0 < total_documents (run calls)" by (simp add: store_inv_def)
    then have "score_loop (run calls) [] (index (run calls)) [] = Inr []"
      by (rule score_loop_empty_query)
    with h show ?thesis
      by (simp add: search_def Counter_Nil sort_results_def slice_to_def)
  qed
  with search_no_zero_division show ?thesis by blast
qed

theorem token_free_query_safe_witness:
  "documents (run (as_calls two_docs)) \<noteq> [] \<and> strip ''?!'' \<noteq> [] \<and> tokenize ''?!'' = [] \<and>
   search (PyStr ''?!'') 10 (run (as_calls two_docs)) = Inr []"
proof -
  have s: "strip ''?!'' \<noteq> []" by code_simp
  have t: "tokenize ''?!'' = []" by code_simp
  have d: "documents (run (as_calls two_docs)) \<noteq> []" by (simp add: two_docs_state)
  from token_free_query_safe [of "as_calls two_docs" "''?!''" 10] s t d show ?thesis by simp
qed

section \<open>Ranking\<close>

text \<open>Every hit that the scoring loop appends has a positive score.\<close>

lemma score_loop_positive:
  "score_loop s qv idx results = Inr out \<Longrightarrow> \<forall>r\<in>set results. 0 < fst r \<Longrightarrow>
   \<forall>r\<in>set out. 0 < fst r"
proof (induction s qv idx results rule: score_loop.induct)
  case (1 s qv results)
  then show ?case by simp
next
  case (2 s qv doc_id concordance rest results)
  from "2.prems"(1) obtain dv where dv: "create_tfidf_vector s concordance = Inr dv"
    by (auto split: sum.splits)
  from "2.prems"(1) dv obtain x where x: "cosine_similarity (PyDict qv) (PyDict dv) = Inr x"
    by (auto split: sum.splits)
  show ?case
  proof (cases "0 < x")
    case True
    with "2.prems"(1) dv x obtain preview where t: "map_of (documents s) doc_id = Some preview"
      by (auto split: option.splits)
    from "2.prems" dv x True t
    have "score_loop s qv rest (results @ [(x, doc_id, preview_of preview)]) = Inr out" by simp
    moreover from "2.prems"(2) True
    have "\<forall>r\<in>set (results @ [(x, doc_id, preview_of preview)]). 0 < fst r" by auto
    ultimately show ?thesis
      using "2.IH"(1) [OF dv x True t] by blast
  next
    case False
    with "2.prems" dv x have "score_loop s qv rest results = Inr out" by simp
    with "2.prems"(2) show ?thesis
      using "2.IH"(2) [OF dv x False] by blast
  qed
qed

lemma sort_results_set: "set (sort_results results) = set results"
  by (simp add: sort_results_def)

lemma sort_results_descending: "sorted_wrt (\<lambda>a b. a \<ge> b) (map fst (sort_results results))"
proof -
  have "sorted (map (\<lambda>x. - fst x) (sort_results results))"
    unfolding sort_results_def by (rule sorted_sort_key)
  then have "sorted_wrt (\<lambda>x y. - fst x \<le> - fst y) (sort_results results)"
    by (simp add: sorted_map)
  then show ?thesis
    by (simp add: sorted_wrt_map)
qed

lemma slice_to_take: "\<exists>k. slice_to xs n = take k xs"
  by (auto simp: slice_to_def)

lemma slice_to_length: "0 \<le> n \<Longrightarrow> int (length (slice_to xs n)) \<le> n"
  by (simp add: slice_to_def)

lemma score_loop_returns:
  "0 < total_documents s \<Longrightarrow> fst ` set idx \<subseteq> fst ` set (documents s) \<Longrightarrow>
   \<exists>out. score_loop s qv idx results = Inr out"
proof (induction idx arbitrary: results)
  case Nil
  then show ?case by simp
next
  case (Cons p idx)
  obtain i c where p: "p = (i, c)" by (cases p)
  from Cons.prems(1) obtain dv where dv: "create_tfidf_vector s c = Inr dv"
    unfolding create_tfidf_vector_def using tfidf_loop_returns by blast
  obtain x where x: "cosine_similarity (PyDict qv) (PyDict dv) = Inr x"
    using cosine_similarity_dicts by blast
  from Cons.prems(2) p have "i \<in> fst ` set (documents s)" by simp
  then obtain preview where t: "map_of (documents s) i = Some preview"
    by (metis domD dom_map_of_conv_image_fst)
  from Cons.prems p have rest: "\<exists>out. score_loop s qv idx r = Inr out" for r
    by (intro Cons.IH) auto
  show ?case
    using rest by (simp add: p dv x t)
qed

lemma search_returns:
  assumes "strip q \<noteq> []"
  shows "\<exists>rs. search (PyStr q) max_results (run calls) = Inr rs"
proof (cases "documents (run calls) = []")
  case True
  with assms show ?thesis by (simp add: search_def)
next
  case False
  let ?s = "run calls"
  have inv: "store_inv ?s" by (rule run_store_inv)
  with False have pos: "0 < total_documents ?s" by (simp add: store_inv_def)
  from inv have "set (map fst (index ?s)) = set (map fst (documents ?s))"
    by (simp only: store_inv_def)
  then have keys: "fst ` set (index ?s) \<subseteq> fst ` set (documents ?s)" by simp
  obtain v where v: "query_loop ?s (sum_list (map snd (Counter (tokenize q)))) (Counter (tokenize q)) [] = Inr v"
    using query_loop_Counter by blast
  obtain out where out: "score_loop ?s v (index ?s) [] = Inr out"
    using score_loop_returns [OF pos keys] by blast
  from assms False v out show ?thesis by (simp add: search_def)
qed

text \<open>
  Claim C5. Whatever list \<open>search\<close> returns, on any state, is sorted by score, largest
  first, and holds no score that is 0 or less; for a maximum \<open>max_results \<ge> 0\<close> it has at
  most \<open>max_results\<close> entries. On every state reached by \<open>add_document\<close> calls, \<open>search\<close>
  does return a list for every query that is not blank.
\<close>

theorem search_ranking:
  "(search query max_results s = Inr rs \<longrightarrow>
      sorted_wrt (\<lambda>a b. a \<ge> b) (map fst rs) \<and>
      (\<forall>r\<in>set rs. 0 < fst r) \<and>
      (0 \<le> max_results \<longrightarrow> int (length rs) \<le> max_results)) \<and>
   (strip q \<noteq> [] \<longrightarrow> (\<exists>hits. search (PyStr q) max_results (run calls) = Inr hits))"
proof -
  have post: "sorted_wrt (\<lambda>a b. a \<ge> b) (map fst rs) \<and> (\<forall>r\<in>set rs. 0 < fst r) \<and>
      (0 \<le> max_results \<longrightarrow> int (length rs) \<le> max_results)"
    if h: "search query max_results s = Inr rs"
  proof (cases "rs = []")
    case True
    then show ?thesis by simp
  next
    case False
    from h obtain q where q: "query = PyStr q"
      by (cases query) (simp_all add: search_def)
    from h False q obtain qv out where
      out: "score_loop s qv (index s) [] = Inr out" and
      rs: "rs = slice_to (sort_results out) max_results"
      by (auto simp: search_def split: if_splits sum.splits)
    from out have pos: "\<forall>r\<in>set out. 0 < fst r"
      by (rule score_loop_positive) simp
    obtain k where k: "rs = take k (sort_results out)"
      using rs slice_to_take by blast
    have "sorted_wrt (\<lambda>a b. a \<ge> b) (take k (map fst (sort_results out)))"
      using sort_results_descending by (rule sorted_wrt_take)
    then have 1: "sorted_wrt (\<lambda>a b. a \<ge> b) (map fst rs)" by (simp add: k take_map)
    have "set rs \<subseteq> set out"
      unfolding k using set_take_subset [of k "sort_results out"] by (simp add: sort_results_set)
    with pos have 2: "\<forall>r\<in>set rs. 0 < fst r" by blast
    have 3: "0 \<le> max_results \<longrightarrow> int (length rs) \<le> max_results"
      unfolding rs using slice_to_length by blast
    from 1 2 3 show ?thesis by blast
  qed
  have "\<exists>hits. search (PyStr q) max_results (run calls) = Inr hits" if "strip q \<noteq> []"
    using that by (rule search_returns)
  with post show ?thesis by blast
qed

lemma score_loop_hit:
  assumes "create_tfidf_vector s c = Inr dv" and "cosine_similarity (PyDict qv) (PyDict dv) = Inr x"
    and "0 < x" and "map_of (documents s) i = Some t"
  shows "score_loop s qv ((i, c) # rest) results
         = score_loop s qv rest (results @ [(x, i, preview_of t)])"
  using assms by simp

lemma score_loop_miss:
  assumes "create_tfidf_vector s c = Inr dv" and "cosine_similarity (PyDict qv) (PyDict dv) = Inr x"
    and "\<not> 0 < x"
  shows "score_loop s qv ((i, c) # rest) results = score_loop s qv rest results"
  using assms by simp

lemma search_steps:
  assumes "strip q \<noteq> []" and "documents s \<noteq> []" and "Counter (tokenize q) = qc"
    and "query_loop s (sum_list (map snd qc)) qc [] = Inr qv"
    and "score_loop s qv (index s) [] = Inr results"
  shows "search (PyStr q) max_results s = Inr (slice_to (sort_results results) max_results)"
  using assms by (simp add: search_def)

lemma three_docs_state:
  "run (as_calls three_docs) =
     \<lparr>documents = [(IntId 1, ''a''), (IntId 2, ''a''), (IntId 3, ''b'')],
      index = [(IntId 1, [(''a'', 1)]), (IntId 2, [(''a'', 1)]), (IntId 3, [(''b'', 1)])],
      document_frequencies = [(''a'', 2), (''b'', 1)],
      total_documents = 3\<rparr>"
  unfolding three_docs_def as_calls_def by code_simp

lemma three_docs_vectors:
  "create_tfidf_vector (run (as_calls three_docs)) [(''a'', 1)] = Inr [(''a'', ln (3 / 2))]"
  "create_tfidf_vector (run (as_calls three_docs)) [(''b'', 1)] = Inr [(''b'', ln 3)]"
  by (simp_all add: create_tfidf_vector_def calculate_tf_idf_def math_log_def get_default_def
        three_docs_state)

lemma three_docs_similarity:
  "cosine_similarity (PyDict [(''a'', 1)]) (PyDict [(''a'', ln (3 / 2))]) = Inr 1"
  "cosine_similarity (PyDict [(''a'', 1)]) (PyDict [(''b'', ln 3)]) = Inr 0"
  by (simp_all add: cosine_similarity_def vector_magnitude_def dot_product_def)

lemma three_docs_query:
  "tokenize ''a'' = [''a'']" "Counter [''a''] = [(''a'', 1)]" "strip ''a'' \<noteq> []"
  "preview_of ''a'' = ''a''"
  by code_simp+

lemma three_docs_scores:
  "score_loop (run (as_calls three_docs)) [(''a'', 1)] (index (run (as_calls three_docs))) []
   = Inr [(1, IntId 1, ''a''), (1, IntId 2, ''a'')]"
proof -
  let ?s = "run (as_calls three_docs)"
  have idx: "index ?s = [(IntId 1, [(''a'', 1)]), (IntId 2, [(''a'', 1)]), (IntId 3, [(''b'', 1)])]"
    by (simp add: three_docs_state)
  have d1: "map_of (documents ?s) (IntId 1) = Some ''a''"
    and d2: "map_of (documents ?s) (IntId 2) = Some ''a''"
    by (simp_all add: three_docs_state)
  have "score_loop ?s [(''a'', 1)] (index ?s) []
        = score_loop ?s [(''a'', 1)] [(IntId 2, [(''a'', 1)]), (IntId 3, [(''b'', 1)])]
            [(1, IntId 1, ''a'')]"
    unfolding idx
    using score_loop_hit [OF three_docs_vectors(1) three_docs_similarity(1) _ d1]
    by (simp add: three_docs_query)
  also have "\<dots> = score_loop ?s [(''a'', 1)] [(IntId 3, [(''b'', 1)])]
            [(1, IntId 1, ''a''), (1, IntId 2, ''a'')]"
    using score_loop_hit [OF three_docs_vectors(1) three_docs_similarity(1) _ d2]
    by (simp add: three_docs_query)
  also have "\<dots> = score_loop ?s [(''a'', 1)] [] [(1, IntId 1, ''a''), (1, IntId 2, ''a'')]"
    using score_loop_miss [OF three_docs_vectors(2) three_docs_similarity(2)]
    by simp
  finally show ?thesis by simp
qed

lemma three_docs_search:
  "search (PyStr ''a'') 1 (run (as_calls three_docs)) = Inr [(1, IntId 1, ''a'')]"
proof -
  have c: "Counter (tokenize ''a'') = [(''a'', 1)]" by (simp add: three_docs_query)
  have q: "query_loop (run (as_calls three_docs)) (sum_list (map snd [(''a'', 1)])) [(''a'', 1)] []
           = Inr [(''a'', 1)]"
    by (simp add: three_docs_state)
  have d: "documents (run (as_calls three_docs)) \<noteq> []" by (simp add: three_docs_state)
  have s: "slice_to (sort_results [(1, IntId 1, ''a''), (1, IntId 2, ''a'')]) 1
           = [(1 :: real, IntId 1, ''a'')]"
    by (simp add: slice_to_def sort_results_def)
  from search_steps [OF three_docs_query(3) d c q three_docs_scores, of 1] s
  show ?thesis by simp
qed

lemma two_docs_vectors:
  "create_tfidf_vector (run (as_calls two_docs)) [(''cat'', 2), (''dog'', 1)]
   = Inr [(''cat'', 2 / 3 * ln 2), (''dog'', 0)]"
  "create_tfidf_vector (run (as_calls two_docs)) [(''dog'', 1), (''bird'', 1)]
   = Inr [(''dog'', 0), (''bird'', 1 / 2 * ln 2)]"
  by (simp_all add: create_tfidf_vector_def calculate_tf_idf_def math_log_def get_default_def
        two_docs_state)

lemma cosine_one_term:
  "0 < w \<Longrightarrow> t \<noteq> u \<Longrightarrow> cosine_similarity (PyDict [(t, 1)]) (PyDict [(t, w), (u, 0)]) = Inr 1"
  by (simp add: cosine_similarity_def vector_magnitude_def dot_product_def)

lemma cosine_no_overlap:
  "t \<noteq> u \<Longrightarrow> t \<noteq> u' \<Longrightarrow> cosine_similarity (PyDict [(t, 1)]) (PyDict [(u, 0), (u', w)]) = Inr 0"
  by (simp add: cosine_similarity_def vector_magnitude_def dot_product_def)

lemma two_docs_query:
  "tokenize ''cat'' = [''cat'']" "Counter [''cat''] = [(''cat'', 1)]" "strip ''cat'' \<noteq> []"
  "preview_of ''cat dog cat'' = ''cat dog cat''"
  by code_simp+

lemma two_docs_search:
  "search (PyStr ''cat'') 10 (run (as_calls two_docs)) = Inr [(1, StrId ''a'', ''cat dog cat'')]"
proof -
  let ?s = "run (as_calls two_docs)"
  have idx: "index ?s = [(StrId ''a'', [(''cat'', 2), (''dog'', 1)]), (StrId ''b'', [(''dog'', 1), (''bird'', 1)])]"
    by (simp add: two_docs_state)
  have d1: "map_of (documents ?s) (StrId ''a'') = Some ''cat dog cat''"
    by (simp add: two_docs_state)
  have c1: "cosine_similarity (PyDict [(''cat'', 1)]) (PyDict [(''cat'', 2 / 3 * ln 2), (''dog'', 0)]) = Inr 1"
    by (rule cosine_one_term) simp_all
  have c2: "cosine_similarity (PyDict [(''cat'', 1)]) (PyDict [(''dog'', 0), (''bird'', 1 / 2 * ln 2)]) = Inr 0"
    by (rule cosine_no_overlap) simp_all
  have "score_loop ?s [(''cat'', 1)] (index ?s) []
        = score_loop ?s [(''cat'', 1)] [(StrId ''b'', [(''dog'', 1), (''bird'', 1)])]
            [(1, StrId ''a'', ''cat dog cat'')]"
    unfolding idx
    using score_loop_hit [OF two_docs_vectors(1) c1 _ d1]
    by (simp add: two_docs_query)
  also have "\<dots> = score_loop ?s [(''cat'', 1)] [] [(1, StrId ''a'', ''cat dog cat'')]"
    using score_loop_miss [OF two_docs_vectors(2) c2]
    by simp
  finally have sc: "score_loop ?s [(''cat'', 1)] (index ?s) [] = Inr [(1, StrId ''a'', ''cat dog cat'')]"
    by simp
  have c: "Counter (tokenize ''cat'') = [(''cat'', 1)]" by (simp add: two_docs_query)
  have q: "query_loop ?s (sum_list (map snd [(''cat'', 1)])) [(''cat'', 1)] [] = Inr [(''cat'', 1)]"
    by (simp add: two_docs_state)
  have d: "documents ?s \<noteq> []" by (simp add: two_docs_state)
  have s: "slice_to (sort_results [(1, StrId ''a'', ''cat dog cat'')]) 10
           = [(1 :: real, StrId ''a'', ''cat dog cat'')]"
    by (simp add: slice_to_def sort_results_def)
  from search_steps [OF two_docs_query(3) d c q sc, of 10] s
  show ?thesis by simp
qed

theorem search_ranking_witness:
  "search (PyStr ''a'') 1 (run (as_calls three_docs)) = Inr [(1, IntId 1, ''a'')] \<and>
   (0 :: int) \<le> 1 \<and> int (length [(1 :: real, IntId 1, ''a'')]) \<le> 1 \<and>
   search (PyStr ''cat'') 10 (run (as_calls two_docs)) = Inr [(1, StrId ''a'', ''cat dog cat'')] \<and>
   sorted_wrt (\<lambda>a b. a \<ge> b) (map fst [(1 :: real, StrId ''a'', ''cat dog cat'')]) \<and>
   0 < fst (1 :: real, StrId ''a'', ''cat dog cat'') \<and>
   (0 :: int) \<le> 10 \<and> int (length [(1 :: real, StrId ''a'', ''cat dog cat'')]) \<le> 10 \<and>
   strip ''cat'' \<noteq> [] \<and>
   (\<exists>hits. search (PyStr ''cat'') 10 (run (as_calls two_docs)) = Inr hits)"
proof -
  from search_ranking [of "PyStr ''cat''" 10 "run (as_calls two_docs)"
      "[(1, StrId ''a'', ''cat dog cat'')]" "''cat''" "as_calls two_docs"]
    search_ranking [of "PyStr ''a''" 1 "run (as_calls three_docs)"
      "[(1, IntId 1, ''a'')]" "''a''" "as_calls three_docs"]
    two_docs_search two_docs_query(3) three_docs_search
  show ?thesis by simp
qed

section \<open>Overwriting a document\<close>

text \<open>
  Where the document frequency of a term does not exceed the number of documents, as it
  is when every id is added once, the weight of a term that occurs is not negative.
\<close>

lemma calculate_tf_idf_nonneg:
  assumes "1 \<le> doc_freq" and "doc_freq \<le> total_documents s" and "0 \<le> term_freq"
    and "calculate_tf_idf s term_freq doc_length doc_freq = Inr w"
  shows "0 \<le> w"
proof -
  from assms(1,2) have "1 \<le> real_of_int (total_documents s) / real_of_int doc_freq"
    by (simp add: le_divide_eq)
  then have idf: "0 \<le> ln (real_of_int (total_documents s) / real_of_int doc_freq)"
    and pos: "\<not> real_of_int (total_documents s) / real_of_int doc_freq \<le> 0"
    by simp_all
  from assms(1,4) pos
  have "w = (if doc_length > 0 then real_of_int term_freq / real_of_int doc_length else 0)
            * ln (real_of_int (total_documents s) / real_of_int doc_freq)"
    by (simp add: calculate_tf_idf_def math_log_def Let_def split: if_splits)
  with idf assms(3) show ?thesis by simp
qed

lemma overwritten_state:
  "overwritten = \<lparr>documents = [(IntId 1, ''cat'')], index = [(IntId 1, [(''cat'', 1)])],
                  document_frequencies = [(''cat'', 2)], total_documents = 1\<rparr>"
  unfolding overwritten_def by code_simp

text \<open>
  Claim C1 at the input \<open>add_document(1, "cat"); add_document(1, "cat")\<close>: the store and
  the index hold one document, and the document frequency of \<open>cat\<close> is 2.
\<close>

theorem overwrite_double_counts:
  "documents overwritten = [(IntId 1, ''cat'')] \<and>
   index overwritten = [(IntId 1, [(''cat'', 1)])] \<and>
   get_default (document_frequencies overwritten) ''cat'' = 2 \<and>
   length (filter (\<lambda>(doc_id, concordance). ''cat'' \<in> fst ` set concordance) (index overwritten)) = 1"
  by (simp add: overwritten_state get_default_def)

text \<open>
  Claim C2 at the same input: the TF-IDF weight of \<open>cat\<close> in the indexed document is
  \<open>ln (1 / 2)\<close>, a negative number, and the cosine similarity that \<open>search("cat")\<close> computes
  for it is \<open>- 1\<close>; the document, whose whole text is the query, is not among the hits.
\<close>

theorem overwrite_negative_weight:
  "index overwritten = [(IntId 1, [(''cat'', 1)])] \<and>
   create_tfidf_vector overwritten [(''cat'', 1)] = Inr [(''cat'', - ln 2)] \<and>
   - ln 2 < (0::real) \<and>
   query_loop overwritten 1 [(''cat'', 1)] [] = Inr [(''cat'', 1)] \<and>
   cosine_similarity (PyDict [(''cat'', 1)]) (PyDict [(''cat'', - ln 2)]) = Inr (- 1) \<and>
   search (PyStr ''cat'') 10 overwritten = Inr []"
proof -
  have w: "calculate_tf_idf overwritten 1 1 2 = Inr (- ln 2)"
    by (simp add: calculate_tf_idf_def math_log_def overwritten_state ln_div)
  have v: "create_tfidf_vector overwritten [(''cat'', 1)] = Inr [(''cat'', - ln 2)]"
    using w by (simp add: create_tfidf_vector_def overwritten_state get_default_def)
  have q: "query_loop overwritten 1 [(''cat'', 1)] [] = Inr [(''cat'', 1)]"
    by (simp add: overwritten_state)
  have c: "cosine_similarity (PyDict [(''cat'', 1)]) (PyDict [(''cat'', - ln 2)]) = Inr (- 1)"
    by (simp add: cosine_similarity_def vector_magnitude_def dot_product_def)
  have "score_loop overwritten [(''cat'', 1)] (index overwritten) []
        = score_loop overwritten [(''cat'', 1)] [] []"
    using score_loop_miss [OF v c] by (simp add: overwritten_state)
  then have sc: "score_loop overwritten [(''cat'', 1)] (index overwritten) [] = Inr []"
    by simp
  have d: "documents overwritten \<noteq> []" by (simp add: overwritten_state)
  have k: "Counter (tokenize ''cat'') = [(''cat'', 1)]" by (simp add: two_docs_query)
  have q': "query_loop overwritten (sum_list (map snd [(''cat'', 1)])) [(''cat'', 1)] []
            = Inr [(''cat'', 1)]"
    using q by simp
  have "search (PyStr ''cat'') 10 overwritten = Inr (slice_to (sort_results []) 10)"
    by (rule search_steps [OF two_docs_query(3) d k q' sc])
  then have r: "search (PyStr ''cat'') 10 overwritten = Inr []"
    by (simp add: slice_to_def sort_results_def)
  from v q c r show ?thesis by (simp add: overwritten_state)
qed

end
